theory Spec2Isabelle
  imports Complex_Main
begin

section \<open>The photo slider of react-photo-view: state, props and environment\<close>

text \<open>
  The development embeds the class \<^verbatim>\<open>PhotoSlider\<close> of \<^verbatim>\<open>src/PhotoSlider.tsx\<close>.
  Every handler of the class becomes a function from the component state (and the props
  and the browser window it reads) to the new state; a callback of the props that the
  handler invokes is recorded in a list of calls returned next to the state.

  JavaScript numbers that carry coordinates, offsets and opacities are modelled as
  \<^typ>\<open>real\<close> (exact arithmetic, no rounding, no NaN). The photo index is an array
  index and is modelled as \<^typ>\<open>int\<close>; \<^verbatim>\<open>undefined\<close> in an optional field is
  \<^term>\<open>None\<close>. \<^verbatim>\<open>setState\<close> is taken to apply its update at once.
\<close>

record PhotoSliderState =
  translateX :: real
  photoIndex :: int
  touched :: bool
  shouldTransition :: bool
  lastClientX :: "real option"
  lastClientY :: "real option"
  backdropOpacity :: real
  overlayVisible :: bool
  canPullClose :: bool

text \<open>
  The props the handlers read. \<^verbatim>\<open>onClose\<close> is mandatory; \<^verbatim>\<open>onIndexChange\<close> is optional
  and the field says whether it is present. The element type of \<^verbatim>\<open>images\<close>
  (\<^verbatim>\<open>dataType\<close>) is left open.
\<close>

record 'a IPhotoSliderProps =
  images :: "'a list"
  index :: "int option"
  visible :: bool
  maskClosable :: bool
  photoClosable :: bool
  onIndexChange :: bool

text \<open>The two fields of the browser's \<^verbatim>\<open>window\<close> that the component reads.\<close>

record window =
  innerWidth :: real
  innerHeight :: real

text \<open>
  The constants imported from \<^verbatim>\<open>./variables\<close>. The module is not part of the sources at
  hand, so its three constants are parameters of every function that uses them.
\<close>

record variables =
  defaultOpacity :: real
  horizontalOffset :: real
  maxMoveOffset :: real

text \<open>The calls a handler makes to the callbacks of the props, in order.\<close>

datatype callback = OnClose | OnIndexChange int

datatype key = ArrowLeft | ArrowRight | Escape | OtherKey

datatype ReachTypeEnum = Normal | XReach | YReach

section \<open>Lifecycle\<close>

text \<open>
  \<^verbatim>\<open>getDerivedStateFromProps\<close> returns a partial state or \<^verbatim>\<open>null\<close>. The model returns
  \<^term>\<open>None\<close> for \<^verbatim>\<open>null\<close> and otherwise the previous state with the returned fields
  merged in, as React does with the result.
\<close>

definition getDerivedStateFromProps ::
  "window \<Rightarrow> variables \<Rightarrow> 'a IPhotoSliderProps \<Rightarrow> PhotoSliderState \<Rightarrow> PhotoSliderState option"
where
  "getDerivedStateFromProps w v nextProps prevState =
     (case index nextProps of
        None \<Rightarrow> None
      | Some i \<Rightarrow>
          if i \<noteq> photoIndex prevState
          then Some (prevState\<lparr>photoIndex := i,
                               translateX := - (innerWidth w + horizontalOffset v) * of_int i\<rparr>)
          else None)"

definition applyDerivedState ::
  "window \<Rightarrow> variables \<Rightarrow> 'a IPhotoSliderProps \<Rightarrow> PhotoSliderState \<Rightarrow> PhotoSliderState"
where
  "applyDerivedState w v nextProps prevState =
     (case getDerivedStateFromProps w v nextProps prevState of
        None \<Rightarrow> prevState
      | Some s \<Rightarrow> s)"

definition constructor :: "variables \<Rightarrow> PhotoSliderState" where
  "constructor v =
     \<lparr>translateX = 0, photoIndex = 0, touched = False, shouldTransition = True,
      lastClientX = None, lastClientY = None, backdropOpacity = defaultOpacity v,
      overlayVisible = True, canPullClose = True\<rparr>"

definition componentDidMount ::
  "window \<Rightarrow> variables \<Rightarrow> 'a IPhotoSliderProps \<Rightarrow> PhotoSliderState \<Rightarrow> PhotoSliderState"
where
  "componentDidMount w v props s =
     (let i = (case index props of None \<Rightarrow> 0 | Some j \<Rightarrow> j)
      in s\<lparr>translateX := of_int i * - (innerWidth w + horizontalOffset v),
            photoIndex := i\<rparr>)"

section \<open>Handlers\<close>

definition handleClose :: "PhotoSliderState \<Rightarrow> PhotoSliderState \<times> callback list" where
  "handleClose s = (s\<lparr>overlayVisible := True\<rparr>, [OnClose])"

definition handlePhotoTap ::
  "'a IPhotoSliderProps \<Rightarrow> PhotoSliderState \<Rightarrow> PhotoSliderState \<times> callback list"
where
  "handlePhotoTap props s =
     (if photoClosable props then handleClose s
      else (s\<lparr>overlayVisible := \<not> overlayVisible s\<rparr>, []))"

definition handlePhotoMaskTap ::
  "'a IPhotoSliderProps \<Rightarrow> PhotoSliderState \<Rightarrow> PhotoSliderState \<times> callback list"
where
  "handlePhotoMaskTap props s =
     (if maskClosable props then handleClose s else (s, []))"

definition handleResize :: "window \<Rightarrow> variables \<Rightarrow> PhotoSliderState \<Rightarrow> PhotoSliderState" where
  "handleResize w v s =
     s\<lparr>translateX := - (innerWidth w + horizontalOffset v) * of_int (photoIndex s),
       lastClientX := None,
       lastClientY := None\<rparr>"

text \<open>The optional \<^verbatim>\<open>scale\<close> is \<^term>\<open>None\<close> when the caller leaves it out.\<close>

definition handleReachVerticalMove ::
  "variables \<Rightarrow> real \<Rightarrow> real option \<Rightarrow> PhotoSliderState \<Rightarrow> PhotoSliderState"
where
  "handleReachVerticalMove v clientY scale s =
     (case lastClientY s of
        None \<Rightarrow>
          s\<lparr>touched := True,
            lastClientY := Some clientY,
            backdropOpacity := backdropOpacity s,
            canPullClose := True\<rparr>
      | Some lastY \<Rightarrow>
          (let offsetClientY = \<bar>clientY - lastY\<bar>;
               opacity = max (min (defaultOpacity v)
                                  (defaultOpacity v - offsetClientY / 100 / 2)) 0
           in s\<lparr>touched := True,
                 lastClientY := Some lastY,
                 backdropOpacity := (if scale = Some 1 then opacity else defaultOpacity v),
                 canPullClose := (scale = Some 1)\<rparr>))"

definition handleReachHorizontalMove ::
  "window \<Rightarrow> variables \<Rightarrow> 'a IPhotoSliderProps \<Rightarrow> real \<Rightarrow> PhotoSliderState \<Rightarrow> PhotoSliderState"
where
  "handleReachHorizontalMove w v props clientX s =
     (case lastClientX s of
        None \<Rightarrow>
          s\<lparr>touched := True,
            lastClientX := Some clientX,
            translateX := translateX s,
            shouldTransition := True\<rparr>
      | Some lastX \<Rightarrow>
          (let originOffsetClientX = clientX - lastX;
               offsetClientX =
                 (if (photoIndex s = 0 \<and> originOffsetClientX > 0) \<or>
                     (photoIndex s = int (length (images props)) - 1 \<and> originOffsetClientX < 0)
                  then originOffsetClientX / 2
                  else originOffsetClientX)
           in s\<lparr>touched := True,
                 lastClientX := Some lastX,
                 translateX :=
                   - (innerWidth w + horizontalOffset v) * of_int (photoIndex s) + offsetClientX,
                 shouldTransition := True\<rparr>))"

text \<open>
  The second parameter of \<^verbatim>\<open>handleIndexChange\<close> has the default value \<^verbatim>\<open>true\<close>, which
  JavaScript uses when the argument is missing or \<^verbatim>\<open>undefined\<close>.
\<close>

definition handleIndexChange ::
  "window \<Rightarrow> variables \<Rightarrow> 'a IPhotoSliderProps \<Rightarrow> int \<Rightarrow> bool option \<Rightarrow> PhotoSliderState
     \<Rightarrow> PhotoSliderState \<times> callback list"
where
  "handleIndexChange w v props newIndex transition s =
     (let singlePageWidth = innerWidth w + horizontalOffset v;
          newTranslateX = - singlePageWidth * of_int newIndex
      in (s\<lparr>touched := False,
             lastClientX := None,
             lastClientY := None,
             translateX := newTranslateX,
             photoIndex := newIndex,
             shouldTransition := (case transition of None \<Rightarrow> True | Some b \<Rightarrow> b)\<rparr>,
          if onIndexChange props then [OnIndexChange newIndex] else []))"

definition handlePrevious ::
  "window \<Rightarrow> variables \<Rightarrow> 'a IPhotoSliderProps \<Rightarrow> bool option \<Rightarrow> PhotoSliderState
     \<Rightarrow> PhotoSliderState \<times> callback list"
where
  "handlePrevious w v props transition s =
     (if photoIndex s > 0
      then handleIndexChange w v props (photoIndex s - 1) transition s
      else (s, []))"

definition handleNext ::
  "window \<Rightarrow> variables \<Rightarrow> 'a IPhotoSliderProps \<Rightarrow> bool option \<Rightarrow> PhotoSliderState
     \<Rightarrow> PhotoSliderState \<times> callback list"
where
  "handleNext w v props transition s =
     (if photoIndex s < int (length (images props)) - 1
      then handleIndexChange w v props (photoIndex s + 1) transition s
      else (s, []))"

definition handleKeyDown ::
  "window \<Rightarrow> variables \<Rightarrow> 'a IPhotoSliderProps \<Rightarrow> key \<Rightarrow> PhotoSliderState
     \<Rightarrow> PhotoSliderState \<times> callback list"
where
  "handleKeyDown w v props k s =
     (if visible props
      then (case k of
              ArrowLeft \<Rightarrow> handlePrevious w v props (Some False) s
            | ArrowRight \<Rightarrow> handleNext w v props (Some False) s
            | Escape \<Rightarrow> handleClose s
            | OtherKey \<Rightarrow> (s, []))
      else (s, []))"

definition handleReachMove ::
  "window \<Rightarrow> variables \<Rightarrow> 'a IPhotoSliderProps \<Rightarrow> ReachTypeEnum \<Rightarrow> real \<Rightarrow> real \<Rightarrow> real option
     \<Rightarrow> PhotoSliderState \<Rightarrow> PhotoSliderState"
where
  "handleReachMove w v props reachState clientX clientY scale s =
     (if reachState = XReach then handleReachHorizontalMove w v props clientX s
      else if reachState = YReach then handleReachVerticalMove v clientY scale s
      else s)"

text \<open>
  \<^verbatim>\<open>handleReachUp\<close> reads the baselines with the defaults \<^verbatim>\<open>clientX\<close> and \<^verbatim>\<open>clientY\<close>,
  so a missing baseline gives the offset 0.
\<close>

definition handleReachUp ::
  "window \<Rightarrow> variables \<Rightarrow> 'a IPhotoSliderProps \<Rightarrow> real \<Rightarrow> real \<Rightarrow> PhotoSliderState
     \<Rightarrow> PhotoSliderState \<times> callback list"
where
  "handleReachUp w v props clientX clientY s =
     (let lastX = (case lastClientX s of None \<Rightarrow> clientX | Some x \<Rightarrow> x);
          lastY = (case lastClientY s of None \<Rightarrow> clientY | Some y \<Rightarrow> y);
          offsetClientX = clientX - lastX;
          offsetClientY = clientY - lastY
      in if offsetClientX < - maxMoveOffset v \<and>
            photoIndex s < int (length (images props)) - 1
         then handleIndexChange w v props (photoIndex s + 1) None s
         else if offsetClientX > maxMoveOffset v \<and> photoIndex s > 0
         then handleIndexChange w v props (photoIndex s - 1) None s
         else
           (let singlePageWidth = innerWidth w + horizontalOffset v;
                currentTranslateX = - singlePageWidth * of_int (photoIndex s);
                currentPhotoIndex = photoIndex s;
                isChangeVisible = (\<bar>offsetClientY\<bar> > innerHeight w * 0.14 \<and> canPullClose s)
            in (s\<lparr>touched := False,
                   translateX := currentTranslateX,
                   photoIndex := currentPhotoIndex,
                   lastClientX := None,
                   lastClientY := None,
                   backdropOpacity := defaultOpacity v,
                   overlayVisible := (if isChangeVisible then True else overlayVisible s)\<rparr>,
                if isChangeVisible then [OnClose] else [])))"

text \<open>
  The two guards of \<^verbatim>\<open>handleReachUp\<close> that end in \<^verbatim>\<open>handleIndexChange\<close> and an early
  return (next photo, previous photo), as one predicate on the inputs of the call.
\<close>

definition turnsPage ::
  "variables \<Rightarrow> 'a IPhotoSliderProps \<Rightarrow> real \<Rightarrow> PhotoSliderState \<Rightarrow> bool"
where
  "turnsPage v props clientX s =
     (let lastX = (case lastClientX s of None \<Rightarrow> clientX | Some x \<Rightarrow> x);
          offsetClientX = clientX - lastX
      in (offsetClientX < - maxMoveOffset v \<and>
          photoIndex s < int (length (images props)) - 1) \<or>
         (offsetClientX > maxMoveOffset v \<and> photoIndex s > 0))"

section \<open>Rendering\<close>

text \<open>
  \<^verbatim>\<open>Array.prototype.slice\<close> on integer arguments: a negative bound counts from the end,
  both bounds are clamped to the array, and an empty range gives the empty array.
\<close>

definition js_slice :: "'a list \<Rightarrow> int \<Rightarrow> int \<Rightarrow> 'a list" where
  "js_slice xs start fin =
     (let len = int (length xs);
          k = (if start < 0 then max (len + start) 0 else min start len);
          final = (if fin < 0 then max (len + fin) 0 else min fin len)
      in take (nat (final - k)) (drop (nat k) xs))"

text \<open>Reading an array at an index that is not one of its positions gives \<^verbatim>\<open>undefined\<close>.\<close>

definition js_index :: "'a list \<Rightarrow> int \<Rightarrow> 'a option" where
  "js_index xs i = (if 0 \<le> i \<and> i < int (length xs) then Some (xs ! nat i) else None)"

definition currentImage :: "'a IPhotoSliderProps \<Rightarrow> PhotoSliderState \<Rightarrow> 'a option" where
  "currentImage props s =
     (if length (images props) \<noteq> 0 then js_index (images props) (photoIndex s) else None)"

text \<open>
  What \<^verbatim>\<open>render\<close> passes to one \<^verbatim>\<open>PhotoView\<close>: the item, the index computed for it, the
  \<^verbatim>\<open>left\<close> of its style in pixels, whether a transition is set, and \<^verbatim>\<open>isActive\<close>.
\<close>

record 'a PhotoViewProps =
  item :: 'a
  realIndex :: int
  left :: real
  transition :: bool
  isActive :: bool

definition renderPhotoView ::
  "window \<Rightarrow> variables \<Rightarrow> PhotoSliderState \<Rightarrow> nat \<times> 'a \<Rightarrow> 'a PhotoViewProps"
where
  "renderPhotoView w v s p =
     (let idx = int (fst p);
          ri = (if photoIndex s = 0 then photoIndex s + idx else photoIndex s - 1 + idx)
      in \<lparr>item = snd p,
          realIndex = ri,
          left = (innerWidth w + horizontalOffset v) * of_int ri,
          transition = (\<not> (touched s \<or> \<not> shouldTransition s)),
          isActive = (photoIndex s = ri)\<rparr>)"

text \<open>
  The list of \<^verbatim>\<open>PhotoView\<close> elements that \<^verbatim>\<open>render\<close> produces when the photo is visible:
  the slice of \<^verbatim>\<open>images\<close> around the current index, mapped with the position in the slice.
\<close>

definition renderPhotoViews ::
  "window \<Rightarrow> variables \<Rightarrow> 'a IPhotoSliderProps \<Rightarrow> PhotoSliderState \<Rightarrow> 'a PhotoViewProps list"
where
  "renderPhotoViews w v props s =
     (let imageLength = int (length (images props));
          sl = js_slice (images props)
                 (max (photoIndex s - 1) 0)
                 (min (photoIndex s + 2) (imageLength + 1))
      in map (renderPhotoView w v s) (zip [0..<length sl] sl))"

section \<open>Sample inputs\<close>

text \<open>
  A phone-sized window, a gallery of three photos, and values for the three constants
  (any values with a non-negative \<^verbatim>\<open>maxMoveOffset\<close> would do). They are the concrete
  inputs at which the theorems below are instantiated.
\<close>

definition sampleWindow :: window where
  "sampleWindow = \<lparr>innerWidth = 375, innerHeight = 667\<rparr>"

definition sampleVariables :: variables where
  "sampleVariables = \<lparr>defaultOpacity = 1, horizontalOffset = 20, maxMoveOffset = 40\<rparr>"

definition sampleProps :: "string IPhotoSliderProps" where
  "sampleProps =
     \<lparr>images = [''a.jpg'', ''b.jpg'', ''c.jpg''], index = None, visible = True,
      maskClosable = True, photoClosable = False, onIndexChange = True\<rparr>"

definition sampleState :: PhotoSliderState where
  "sampleState = constructor sampleVariables"

lemmas sample_defs = sampleWindow_def sampleVariables_def sampleProps_def sampleState_def
  constructor_def

section \<open>Properties of the handlers\<close>

lemma turnsPage_iff:
  "turnsPage v props clientX s \<longleftrightarrow>
     photoIndex (fst (handleReachUp w v props clientX clientY s)) \<noteq> photoIndex s"
  by (auto simp: turnsPage_def handleReachUp_def handleIndexChange_def Let_def
      split: option.splits)

text \<open>
  Claim C7. The first move of a gesture only records the baseline. When \<^verbatim>\<open>lastClientX\<close>
  is undefined, \<^verbatim>\<open>handleReachHorizontalMove\<close> sets \<^verbatim>\<open>lastClientX\<close> to \<^verbatim>\<open>clientX\<close> and
  \<^verbatim>\<open>touched\<close> to true and leaves \<^verbatim>\<open>translateX\<close> as it was; when \<^verbatim>\<open>lastClientY\<close> is
  undefined, \<^verbatim>\<open>handleReachVerticalMove\<close> sets \<^verbatim>\<open>lastClientY\<close> to \<^verbatim>\<open>clientY\<close>, \<^verbatim>\<open>touched\<close>
  and \<^verbatim>\<open>canPullClose\<close> to true and leaves \<^verbatim>\<open>backdropOpacity\<close> as it was. The last
  conjunct of each part is the whole frame: no other field changes, except that the
  horizontal move also sets \<^verbatim>\<open>shouldTransition\<close>.
\<close>

theorem first_move_sets_baseline:
  "(lastClientX s = None \<longrightarrow>
      (let s' = handleReachHorizontalMove w v props clientX s
       in lastClientX s' = Some clientX \<and> touched s' \<and> translateX s' = translateX s \<and>
          s' = s\<lparr>touched := True, lastClientX := Some clientX, shouldTransition := True\<rparr>)) \<and>
   (lastClientY s = None \<longrightarrow>
      (let s' = handleReachVerticalMove v clientY scale s
       in lastClientY s' = Some clientY \<and> touched s' \<and> canPullClose s' \<and>
          backdropOpacity s' = backdropOpacity s \<and>
          s' = s\<lparr>touched := True, lastClientY := Some clientY, canPullClose := True\<rparr>))"
  by (simp add: handleReachHorizontalMove_def handleReachVerticalMove_def Let_def)

theorem first_move_sets_baseline_witness:
  "lastClientX sampleState = None \<and> lastClientY sampleState = None \<and>
   lastClientX (handleReachHorizontalMove sampleWindow sampleVariables sampleProps 120 sampleState)
     = Some 120 \<and>
   translateX (handleReachHorizontalMove sampleWindow sampleVariables sampleProps 120 sampleState)
     = 0 \<and>
   lastClientY (handleReachVerticalMove sampleVariables 300 (Some 1) sampleState) = Some 300 \<and>
   backdropOpacity (handleReachVerticalMove sampleVariables 300 (Some 1) sampleState) = 1"
proof -
  have h: "lastClientX sampleState = None" "lastClientY sampleState = None"
    by (simp_all add: sample_defs)
  have t: "translateX sampleState = 0" "backdropOpacity sampleState = 1"
    by (simp_all add: sample_defs)
  show ?thesis
    using first_move_sets_baseline
            [of sampleState sampleWindow sampleVariables sampleProps 120 300 "Some 1"] h t
    by (simp add: Let_def)
qed

text \<open>
  Claim C1. On release with a horizontal baseline \<^verbatim>\<open>lastClientX\<close>, the slider goes to
  \<^verbatim>\<open>photoIndex + 1\<close> exactly when \<^verbatim>\<open>clientX - lastClientX < -maxMoveOffset\<close> and
  \<^verbatim>\<open>photoIndex < images.length - 1\<close>, to \<^verbatim>\<open>photoIndex - 1\<close> exactly when
  \<^verbatim>\<open>clientX - lastClientX > maxMoveOffset\<close> and \<^verbatim>\<open>photoIndex > 0\<close>, and otherwise keeps
  \<^verbatim>\<open>photoIndex\<close>. In the two moving cases the call is the one to \<^verbatim>\<open>handleIndexChange\<close>.
  The threshold is a distance from the baseline. The constant \<^verbatim>\<open>maxMoveOffset\<close> is a
  parameter here and is taken to be non-negative, so that the two guards exclude each
  other.
\<close>

theorem handleReachUp_page_turn_threshold:
  assumes "lastClientX s = Some lastX" and "0 \<le> maxMoveOffset v"
  shows "let r = handleReachUp w v props clientX clientY s;
             p = photoIndex s;
             next = (clientX - lastX < - maxMoveOffset v \<and> p < int (length (images props)) - 1);
             prev = (clientX - lastX > maxMoveOffset v \<and> p > 0)
         in (photoIndex (fst r) = p + 1 \<longleftrightarrow> next) \<and>
            (photoIndex (fst r) = p - 1 \<longleftrightarrow> prev) \<and>
            (\<not> next \<and> \<not> prev \<longrightarrow> photoIndex (fst r) = p) \<and>
            (next \<longrightarrow> r = handleIndexChange w v props (p + 1) None s) \<and>
            (prev \<longrightarrow> r = handleIndexChange w v props (p - 1) None s)"
  using assms
  by (auto simp: handleReachUp_def handleIndexChange_def Let_def)

theorem handleReachUp_page_turn_threshold_witness:
  "lastClientX (sampleState\<lparr>photoIndex := 1, lastClientX := Some 200\<rparr>) = Some 200 \<and>
   0 \<le> maxMoveOffset sampleVariables \<and>
   photoIndex (fst (handleReachUp sampleWindow sampleVariables sampleProps 150 0
                      (sampleState\<lparr>photoIndex := 1, lastClientX := Some 200\<rparr>))) = 2 \<and>
   photoIndex (fst (handleReachUp sampleWindow sampleVariables sampleProps 250 0
                      (sampleState\<lparr>photoIndex := 1, lastClientX := Some 200\<rparr>))) = 0 \<and>
   photoIndex (fst (handleReachUp sampleWindow sampleVariables sampleProps 230 0
                      (sampleState\<lparr>photoIndex := 1, lastClientX := Some 200\<rparr>))) = 1"
proof -
  let ?s = "sampleState\<lparr>photoIndex := 1, lastClientX := Some 200\<rparr>"
  have h1: "lastClientX ?s = Some 200" by simp
  have h2: "0 \<le> maxMoveOffset sampleVariables" by (simp add: sample_defs)
  have c: "photoIndex ?s = 1" "maxMoveOffset sampleVariables = 40"
    "int (length (images sampleProps)) = 3"
    by (simp_all add: sample_defs)
  note T = handleReachUp_page_turn_threshold [OF h1 h2, unfolded Let_def]
  have "photoIndex (fst (handleReachUp sampleWindow sampleVariables sampleProps 150 0 ?s)) = 2"
    using T [of sampleWindow sampleProps 150 0, THEN conjunct1] c by simp
  moreover
  have "photoIndex (fst (handleReachUp sampleWindow sampleVariables sampleProps 250 0 ?s)) = 0"
    using T [of sampleWindow sampleProps 250 0, THEN conjunct2, THEN conjunct1] c by simp
  moreover
  have "photoIndex (fst (handleReachUp sampleWindow sampleVariables sampleProps 230 0 ?s)) = 1"
    using T [of sampleWindow sampleProps 230 0, THEN conjunct2, THEN conjunct2, THEN conjunct1] c
    by simp
  ultimately show ?thesis using h1 h2 by blast
qed

text \<open>
  Claim C2. With a baseline \<^verbatim>\<open>lastClientX\<close>, a horizontal move that pulls the first photo
  to the right or the last photo to the left gets half of the offset:
  \<^verbatim>\<open>translateX = -(innerWidth + horizontalOffset) * photoIndex + (clientX - lastClientX) / 2\<close>.
\<close>

theorem handleReachHorizontalMove_edge_halved:
  assumes "lastClientX s = Some lastX"
    and "(photoIndex s = 0 \<and> clientX - lastX > 0) \<or>
         (photoIndex s = int (length (images props)) - 1 \<and> clientX - lastX < 0)"
  shows "translateX (handleReachHorizontalMove w v props clientX s) =
           - (innerWidth w + horizontalOffset v) * of_int (photoIndex s) + (clientX - lastX) / 2"
  using assms by (auto simp: handleReachHorizontalMove_def Let_def)

theorem handleReachHorizontalMove_edge_halved_witness:
  "lastClientX (sampleState\<lparr>photoIndex := 2, lastClientX := Some 200\<rparr>) = Some 200 \<and>
   ((photoIndex (sampleState\<lparr>photoIndex := 2, lastClientX := Some 200\<rparr>) = 0 \<and> (140::real) - 200 > 0) \<or>
    (photoIndex (sampleState\<lparr>photoIndex := 2, lastClientX := Some 200\<rparr>) =
       int (length (images sampleProps)) - 1 \<and> (140::real) - 200 < 0)) \<and>
   translateX (handleReachHorizontalMove sampleWindow sampleVariables sampleProps 140
                 (sampleState\<lparr>photoIndex := 2, lastClientX := Some 200\<rparr>)) = - 820"
proof -
  let ?s = "sampleState\<lparr>photoIndex := 2, lastClientX := Some 200\<rparr>"
  have h1: "lastClientX ?s = Some 200" by simp
  have h2: "(photoIndex ?s = 0 \<and> (140::real) - 200 > 0) \<or>
            (photoIndex ?s = int (length (images sampleProps)) - 1 \<and> (140::real) - 200 < 0)"
    by (simp add: sample_defs)
  have "translateX (handleReachHorizontalMove sampleWindow sampleVariables sampleProps 140 ?s) =
          - (innerWidth sampleWindow + horizontalOffset sampleVariables) * of_int (photoIndex ?s)
          + (140 - 200) / 2"
    using h1 h2 by (rule handleReachHorizontalMove_edge_halved)
  also have "\<dots> = - 820" by (simp add: sample_defs)
  finally show ?thesis using h1 h2 by blast
qed

text \<open>
  Claim C5. With a baseline \<^verbatim>\<open>lastClientX\<close>, a horizontal move that is not an overscroll
  at either end applies the offset in full:
  \<^verbatim>\<open>translateX = -(innerWidth + horizontalOffset) * photoIndex + (clientX - lastClientX)\<close>,
  with \<^verbatim>\<open>photoIndex\<close> and \<^verbatim>\<open>lastClientX\<close> unchanged and \<^verbatim>\<open>touched\<close> true.
\<close>

theorem handleReachHorizontalMove_paging_offset:
  assumes "lastClientX s = Some lastX"
    and "\<not> (photoIndex s = 0 \<and> clientX - lastX > 0)"
    and "\<not> (photoIndex s = int (length (images props)) - 1 \<and> clientX - lastX < 0)"
  shows "let s' = handleReachHorizontalMove w v props clientX s
         in translateX s' =
              - (innerWidth w + horizontalOffset v) * of_int (photoIndex s) + (clientX - lastX) \<and>
            photoIndex s' = photoIndex s \<and> lastClientX s' = Some lastX \<and> touched s'"
  using assms by (auto simp: handleReachHorizontalMove_def Let_def)

theorem handleReachHorizontalMove_paging_offset_witness:
  "lastClientX (sampleState\<lparr>photoIndex := 1, lastClientX := Some 200\<rparr>) = Some 200 \<and>
   \<not> (photoIndex (sampleState\<lparr>photoIndex := 1, lastClientX := Some 200\<rparr>) = 0 \<and>
      (140::real) - 200 > 0) \<and>
   \<not> (photoIndex (sampleState\<lparr>photoIndex := 1, lastClientX := Some 200\<rparr>) =
        int (length (images sampleProps)) - 1 \<and> (140::real) - 200 < 0) \<and>
   translateX (handleReachHorizontalMove sampleWindow sampleVariables sampleProps 140
                 (sampleState\<lparr>photoIndex := 1, lastClientX := Some 200\<rparr>)) = - 455 \<and>
   photoIndex (handleReachHorizontalMove sampleWindow sampleVariables sampleProps 140
                 (sampleState\<lparr>photoIndex := 1, lastClientX := Some 200\<rparr>)) = 1"
proof -
  let ?s = "sampleState\<lparr>photoIndex := 1, lastClientX := Some 200\<rparr>"
  have h1: "lastClientX ?s = Some 200" by simp
  have h2: "\<not> (photoIndex ?s = 0 \<and> (140::real) - 200 > 0)" by simp
  have h3: "\<not> (photoIndex ?s = int (length (images sampleProps)) - 1 \<and> (140::real) - 200 < 0)"
    by (simp add: sample_defs)
  have c: "innerWidth sampleWindow = 375" "horizontalOffset sampleVariables = 20"
    by (simp_all add: sample_defs)
  show ?thesis
    using handleReachHorizontalMove_paging_offset [OF h1 h2 h3, of sampleWindow sampleVariables]
      h3
    by (simp add: Let_def c)
qed

text \<open>
  Claim C4. With a baseline \<^verbatim>\<open>lastClientY\<close>, a vertical move at scale 1 sets
  \<^verbatim>\<open>backdropOpacity\<close> to
  \<^verbatim>\<open>max(min(defaultOpacity, defaultOpacity - |clientY - lastClientY| / 100 / 2), 0)\<close> and
  \<^verbatim>\<open>canPullClose\<close> to true; at any other scale (also a missing one) it sets
  \<^verbatim>\<open>backdropOpacity\<close> to \<^verbatim>\<open>defaultOpacity\<close> and \<^verbatim>\<open>canPullClose\<close> to false.
\<close>

theorem handleReachVerticalMove_opacity:
  assumes "lastClientY s = Some lastY"
  shows "let s' = handleReachVerticalMove v clientY scale s
         in (scale = Some 1 \<longrightarrow>
               backdropOpacity s' =
                 max (min (defaultOpacity v) (defaultOpacity v - \<bar>clientY - lastY\<bar> / 100 / 2)) 0 \<and>
               canPullClose s') \<and>
            (scale \<noteq> Some 1 \<longrightarrow>
               backdropOpacity s' = defaultOpacity v \<and> \<not> canPullClose s')"
  using assms by (simp add: handleReachVerticalMove_def Let_def)

theorem handleReachVerticalMove_opacity_witness:
  "lastClientY (sampleState\<lparr>lastClientY := Some 300\<rparr>) = Some 300 \<and>
   backdropOpacity (handleReachVerticalMove sampleVariables 400 (Some 1)
                      (sampleState\<lparr>lastClientY := Some 300\<rparr>)) = 1 / 2 \<and>
   canPullClose (handleReachVerticalMove sampleVariables 400 (Some 1)
                   (sampleState\<lparr>lastClientY := Some 300\<rparr>)) \<and>
   backdropOpacity (handleReachVerticalMove sampleVariables 400 (Some 2)
                      (sampleState\<lparr>lastClientY := Some 300\<rparr>)) = 1 \<and>
   \<not> canPullClose (handleReachVerticalMove sampleVariables 400 (Some 2)
                     (sampleState\<lparr>lastClientY := Some 300\<rparr>))"
proof -
  let ?s = "sampleState\<lparr>lastClientY := Some 300\<rparr>"
  have h: "lastClientY ?s = Some 300" by simp
  have c: "defaultOpacity sampleVariables = 1" by (simp add: sample_defs)
  note T = handleReachVerticalMove_opacity [OF h, unfolded Let_def]
  have "backdropOpacity (handleReachVerticalMove sampleVariables 400 (Some 1) ?s) = 1 / 2 \<and>
        canPullClose (handleReachVerticalMove sampleVariables 400 (Some 1) ?s)"
    using T [where scale = "Some 1" and v = sampleVariables and clientY = 400] c by simp
  moreover
  have "backdropOpacity (handleReachVerticalMove sampleVariables 400 (Some 2) ?s) = 1 \<and>
        \<not> canPullClose (handleReachVerticalMove sampleVariables 400 (Some 2) ?s)"
    using T [where scale = "Some 2" and v = sampleVariables and clientY = 400] c by simp
  ultimately show ?thesis using h by blast
qed

text \<open>
  Claim C3. On release with a vertical baseline \<^verbatim>\<open>lastClientY\<close> and no page turn,
  \<^verbatim>\<open>onClose\<close> is called exactly when \<^verbatim>\<open>|clientY - lastClientY| > 0.14 * innerHeight\<close> and
  \<^verbatim>\<open>canPullClose\<close> is true, and then it is called once and \<^verbatim>\<open>overlayVisible\<close> becomes
  true; without the call \<^verbatim>\<open>overlayVisible\<close> keeps its value.
\<close>

theorem handleReachUp_pull_to_close:
  assumes "lastClientY s = Some lastY" and "\<not> turnsPage v props clientX s"
  shows "let r = handleReachUp w v props clientX clientY s;
             pull = (\<bar>clientY - lastY\<bar> > 0.14 * innerHeight w \<and> canPullClose s)
         in (OnClose \<in> set (snd r) \<longleftrightarrow> pull) \<and>
            snd r = (if pull then [OnClose] else []) \<and>
            (pull \<longrightarrow> overlayVisible (fst r)) \<and>
            (\<not> pull \<longrightarrow> overlayVisible (fst r) = overlayVisible s)"
  using assms
  by (auto simp: handleReachUp_def turnsPage_def Let_def mult.commute split: option.splits)

theorem handleReachUp_pull_to_close_witness:
  "lastClientY (sampleState\<lparr>lastClientY := Some 300, overlayVisible := False\<rparr>) = Some 300 \<and>
   \<not> turnsPage sampleVariables sampleProps 10
       (sampleState\<lparr>lastClientY := Some 300, overlayVisible := False\<rparr>) \<and>
   snd (handleReachUp sampleWindow sampleVariables sampleProps 10 400
          (sampleState\<lparr>lastClientY := Some 300, overlayVisible := False\<rparr>)) = [OnClose] \<and>
   overlayVisible (fst (handleReachUp sampleWindow sampleVariables sampleProps 10 400
          (sampleState\<lparr>lastClientY := Some 300, overlayVisible := False\<rparr>))) \<and>
   snd (handleReachUp sampleWindow sampleVariables sampleProps 10 350
          (sampleState\<lparr>lastClientY := Some 300, overlayVisible := False\<rparr>)) = []"
proof -
  let ?s = "sampleState\<lparr>lastClientY := Some 300, overlayVisible := False\<rparr>"
  have h1: "lastClientY ?s = Some 300" by simp
  have h2: "\<not> turnsPage sampleVariables sampleProps 10 ?s"
    by (simp add: turnsPage_def Let_def sample_defs)
  have c: "innerHeight sampleWindow = 667" "canPullClose ?s"
    by (simp_all add: sample_defs)
  note T = handleReachUp_pull_to_close [OF h1 h2, unfolded Let_def]
  have "snd (handleReachUp sampleWindow sampleVariables sampleProps 10 400 ?s) = [OnClose] \<and>
        overlayVisible (fst (handleReachUp sampleWindow sampleVariables sampleProps 10 400 ?s))"
    using T [where clientY = 400 and w = sampleWindow] c by simp
  moreover
  have "snd (handleReachUp sampleWindow sampleVariables sampleProps 10 350 ?s) = []"
    using T [where clientY = 350 and w = sampleWindow] c by simp
  ultimately show ?thesis using h1 h2 by blast
qed

text \<open>
  Claim C8. A release that does not turn the page snaps back, whether or not it calls
  \<^verbatim>\<open>onClose\<close>: \<^verbatim>\<open>photoIndex\<close> is unchanged,
  \<^verbatim>\<open>translateX = -(innerWidth + horizontalOffset) * photoIndex\<close>,
  \<^verbatim>\<open>backdropOpacity = defaultOpacity\<close>, \<^verbatim>\<open>touched\<close> is false and both baselines are
  undefined.
\<close>

theorem handleReachUp_snap_back:
  assumes "\<not> turnsPage v props clientX s"
  shows "let s' = fst (handleReachUp w v props clientX clientY s)
         in photoIndex s' = photoIndex s \<and>
            translateX s' = - (innerWidth w + horizontalOffset v) * of_int (photoIndex s) \<and>
            backdropOpacity s' = defaultOpacity v \<and>
            \<not> touched s' \<and> lastClientX s' = None \<and> lastClientY s' = None"
  using assms
  by (auto simp: handleReachUp_def turnsPage_def Let_def algebra_simps split: option.splits)

theorem handleReachUp_snap_back_witness:
  "\<not> turnsPage sampleVariables sampleProps 230
       (sampleState\<lparr>photoIndex := 1, translateX := - 365, touched := True,
                     lastClientX := Some 200, lastClientY := Some 300,
                     backdropOpacity := 1 / 2\<rparr>) \<and>
   fst (handleReachUp sampleWindow sampleVariables sampleProps 230 400
         (sampleState\<lparr>photoIndex := 1, translateX := - 365, touched := True,
                       lastClientX := Some 200, lastClientY := Some 300,
                       backdropOpacity := 1 / 2\<rparr>)) =
     sampleState\<lparr>photoIndex := 1, translateX := - 395\<rparr>"
proof -
  let ?s = "sampleState\<lparr>photoIndex := 1, translateX := - 365, touched := True,
                        lastClientX := Some 200, lastClientY := Some 300,
                        backdropOpacity := 1 / 2\<rparr>"
  let ?s' = "fst (handleReachUp sampleWindow sampleVariables sampleProps 230 400 ?s)"
  have h: "\<not> turnsPage sampleVariables sampleProps 230 ?s"
    by (simp add: turnsPage_def Let_def sample_defs)
  have T: "photoIndex ?s' = photoIndex ?s \<and>
           translateX ?s' =
             - (innerWidth sampleWindow + horizontalOffset sampleVariables) * of_int (photoIndex ?s) \<and>
           backdropOpacity ?s' = defaultOpacity sampleVariables \<and>
           \<not> touched ?s' \<and> lastClientX ?s' = None \<and> lastClientY ?s' = None"
    by (rule handleReachUp_snap_back
          [OF h, where w = sampleWindow and clientY = 400, unfolded Let_def])
  have rest: "shouldTransition ?s' \<and> overlayVisible ?s' \<and> canPullClose ?s'"
    by (simp add: handleReachUp_def Let_def sample_defs)
  have "?s' = sampleState\<lparr>photoIndex := 1, translateX := - 395\<rparr>"
    using T rest by (simp add: sample_defs)
  then show ?thesis using h by blast
qed

text \<open>
  Claim C6. In a state with \<^verbatim>\<open>0 <= photoIndex <= images.length - 1\<close>, \<^verbatim>\<open>handlePrevious\<close>
  changes \<^verbatim>\<open>photoIndex\<close> only when it is positive, to \<^verbatim>\<open>photoIndex - 1\<close>, and
  \<^verbatim>\<open>handleNext\<close> only when it is below \<^verbatim>\<open>images.length - 1\<close>, to \<^verbatim>\<open>photoIndex + 1\<close>. Both
  keep the index within the bounds, and at the bound each returns the state as it was and
  calls nothing.
\<close>

theorem handlePrevious_handleNext_in_bounds:
  assumes "0 \<le> photoIndex s" and "photoIndex s \<le> int (length (images props)) - 1"
  shows "let p = photoIndex s; n = int (length (images props));
             rp = handlePrevious w v props t s; rn = handleNext w v props t s
         in (photoIndex (fst rp) \<noteq> p \<longleftrightarrow> p > 0) \<and>
            (p > 0 \<longrightarrow> photoIndex (fst rp) = p - 1) \<and>
            (photoIndex (fst rn) \<noteq> p \<longleftrightarrow> p < n - 1) \<and>
            (p < n - 1 \<longrightarrow> photoIndex (fst rn) = p + 1) \<and>
            0 \<le> photoIndex (fst rp) \<and> photoIndex (fst rp) \<le> n - 1 \<and>
            0 \<le> photoIndex (fst rn) \<and> photoIndex (fst rn) \<le> n - 1 \<and>
            (p = 0 \<longrightarrow> rp = (s, [])) \<and>
            (p = n - 1 \<longrightarrow> rn = (s, []))"
  using assms
  by (auto simp: handlePrevious_def handleNext_def handleIndexChange_def Let_def)

theorem handlePrevious_handleNext_in_bounds_witness:
  "0 \<le> photoIndex sampleState \<and>
   photoIndex sampleState \<le> int (length (images sampleProps)) - 1 \<and>
   handlePrevious sampleWindow sampleVariables sampleProps None sampleState = (sampleState, []) \<and>
   photoIndex (fst (handleNext sampleWindow sampleVariables sampleProps None sampleState)) = 1 \<and>
   0 \<le> photoIndex (sampleState\<lparr>photoIndex := 2\<rparr>) \<and>
   photoIndex (sampleState\<lparr>photoIndex := 2\<rparr>) \<le> int (length (images sampleProps)) - 1 \<and>
   handleNext sampleWindow sampleVariables sampleProps None (sampleState\<lparr>photoIndex := 2\<rparr>) =
     (sampleState\<lparr>photoIndex := 2\<rparr>, []) \<and>
   photoIndex (fst (handlePrevious sampleWindow sampleVariables sampleProps None
                      (sampleState\<lparr>photoIndex := 2\<rparr>))) = 1"
proof -
  let ?s = "sampleState\<lparr>photoIndex := 2\<rparr>"
  have a1: "0 \<le> photoIndex sampleState"
    and a2: "photoIndex sampleState \<le> int (length (images sampleProps)) - 1"
    by (simp_all add: sample_defs)
  have b1: "0 \<le> photoIndex ?s"
    and b2: "photoIndex ?s \<le> int (length (images sampleProps)) - 1"
    by (simp_all add: sample_defs)
  have c: "photoIndex sampleState = 0" "photoIndex ?s = 2" "int (length (images sampleProps)) = 3"
    by (simp_all add: sample_defs)
  note A = handlePrevious_handleNext_in_bounds
             [OF a1 a2, where w = sampleWindow and v = sampleVariables and t = None,
              unfolded Let_def]
  note B = handlePrevious_handleNext_in_bounds
             [OF b1 b2, where w = sampleWindow and v = sampleVariables and t = None,
              unfolded Let_def]
  have "handlePrevious sampleWindow sampleVariables sampleProps None sampleState = (sampleState, [])"
    using A c by simp
  moreover
  have "photoIndex (fst (handleNext sampleWindow sampleVariables sampleProps None sampleState)) = 1"
    using A c by simp
  moreover
  have "handleNext sampleWindow sampleVariables sampleProps None ?s = (?s, [])"
    using B c by simp
  moreover
  have "photoIndex (fst (handlePrevious sampleWindow sampleVariables sampleProps None ?s)) = 1"
    using B c by simp
  ultimately show ?thesis using a1 a2 b1 b2 by blast
qed

text \<open>
  Claim C10. The operations that put the slider on a resting page leave it aligned,
  \<^verbatim>\<open>translateX = -(innerWidth + horizontalOffset) * photoIndex\<close>:
  \<^verbatim>\<open>getDerivedStateFromProps\<close> when \<^verbatim>\<open>props.index\<close> is defined and differs from the
  state's \<^verbatim>\<open>photoIndex\<close> (it returns \<^verbatim>\<open>null\<close> otherwise, and the state stays),
  \<^verbatim>\<open>componentDidMount\<close> for \<^verbatim>\<open>props.index\<close> or 0 when that is undefined, \<^verbatim>\<open>handleResize\<close>
  for the current \<^verbatim>\<open>photoIndex\<close>, and \<^verbatim>\<open>handleIndexChange\<close> for the new one.
\<close>

theorem resting_page_aligned:
  "(\<forall>i. index props = Some i \<and> i \<noteq> photoIndex s \<longrightarrow>
      (\<exists>s'. getDerivedStateFromProps w v props s = Some s' \<and> photoIndex s' = i \<and>
            translateX s' = - (innerWidth w + horizontalOffset v) * of_int (photoIndex s'))) \<and>
   (index props = None \<or> index props = Some (photoIndex s) \<longrightarrow>
      getDerivedStateFromProps w v props s = None \<and> applyDerivedState w v props s = s) \<and>
   (let s' = componentDidMount w v props s
    in photoIndex s' = (case index props of None \<Rightarrow> 0 | Some i \<Rightarrow> i) \<and>
       translateX s' = - (innerWidth w + horizontalOffset v) * of_int (photoIndex s')) \<and>
   (let s' = handleResize w v s
    in photoIndex s' = photoIndex s \<and>
       translateX s' = - (innerWidth w + horizontalOffset v) * of_int (photoIndex s')) \<and>
   (let s' = fst (handleIndexChange w v props newIndex t s)
    in photoIndex s' = newIndex \<and>
       translateX s' = - (innerWidth w + horizontalOffset v) * of_int (photoIndex s'))"
  by (auto simp: getDerivedStateFromProps_def applyDerivedState_def componentDidMount_def
        handleResize_def handleIndexChange_def Let_def algebra_simps split: option.splits)

theorem resting_page_aligned_witness:
  "index (sampleProps\<lparr>index := Some 2\<rparr>) = Some 2 \<and> 2 \<noteq> photoIndex sampleState \<and>
   (\<exists>s'. getDerivedStateFromProps sampleWindow sampleVariables
            (sampleProps\<lparr>index := Some 2\<rparr>) sampleState = Some s' \<and>
          photoIndex s' = 2 \<and> translateX s' = - 790) \<and>
   index sampleProps = None \<and>
   getDerivedStateFromProps sampleWindow sampleVariables sampleProps sampleState = None \<and>
   translateX (componentDidMount sampleWindow sampleVariables
                 (sampleProps\<lparr>index := Some 2\<rparr>) sampleState) = - 790"
proof -
  let ?P = "sampleProps\<lparr>index := Some 2\<rparr>"
  have h1: "index ?P = Some 2 \<and> 2 \<noteq> photoIndex sampleState"
    by (simp add: sample_defs)
  have h2: "index sampleProps = None"
    by (simp add: sample_defs)
  have c: "innerWidth sampleWindow = 375" "horizontalOffset sampleVariables = 20"
    by (simp_all add: sample_defs)
  note A = resting_page_aligned
             [where props = ?P and s = sampleState and w = sampleWindow and v = sampleVariables
                and newIndex = 0 and t = None, unfolded Let_def]
  note B = resting_page_aligned
             [where props = sampleProps and s = sampleState and w = sampleWindow
                and v = sampleVariables and newIndex = 0 and t = None, unfolded Let_def]
  have "\<exists>s'. getDerivedStateFromProps sampleWindow sampleVariables ?P sampleState = Some s' \<and>
          photoIndex s' = 2 \<and> translateX s' = - 790"
    using A [THEN conjunct1, rule_format, OF h1] c by auto
  moreover
  have "getDerivedStateFromProps sampleWindow sampleVariables sampleProps sampleState = None"
    using B [THEN conjunct2, THEN conjunct1] h2 by simp
  moreover
  have "translateX (componentDidMount sampleWindow sampleVariables ?P sampleState) = - 790"
    using A [THEN conjunct2, THEN conjunct2, THEN conjunct1] c by simp
  ultimately show ?thesis using h1 h2 by blast
qed

section \<open>Properties of rendering\<close>

text \<open>
  For an index inside the gallery the two bounds that \<^verbatim>\<open>render\<close> passes to \<^verbatim>\<open>slice\<close>
  select the positions from \<^verbatim>\<open>max(photoIndex - 1, 0)\<close> to
  \<^verbatim>\<open>min(photoIndex + 1, images.length - 1)\<close>.
\<close>

lemma js_slice_window:
  assumes "0 \<le> p" and "p \<le> int (length xs) - 1"
  shows "js_slice xs (max (p - 1) 0) (min (p + 2) (int (length xs) + 1)) =
           take (nat (min (p + 1) (int (length xs) - 1) - max (p - 1) 0 + 1))
                (drop (nat (max (p - 1) 0)) xs)"
proof -
  have f1: "min (min (p + 2) (int (length xs) + 1)) (int (length xs)) -
              min (max (p - 1) 0) (int (length xs)) =
            min (p + 1) (int (length xs) - 1) - max (p - 1) 0 + 1"
    using assms by arith
  have f2: "min (max (p - 1) 0) (int (length xs)) = max (p - 1) 0"
    using assms by arith
  have f3: "(max (p - 1) 0 < 0) = False"
    by simp
  have f4: "(min (p + 2) (int (length xs) + 1) < 0) = False"
    using assms by arith
  show ?thesis
    unfolding js_slice_def Let_def f3 f4 if_False f1 unfolding f2 ..
qed

lemma length_window:
  assumes "0 \<le> p" and "p \<le> int (length xs) - 1"
  shows "length (take (nat (min (p + 1) (int (length xs) - 1) - max (p - 1) 0 + 1))
                (drop (nat (max (p - 1) 0)) xs)) =
           nat (min (p + 1) (int (length xs) - 1) - max (p - 1) 0 + 1)"
proof -
  have "nat (min (p + 1) (int (length xs) - 1) - max (p - 1) 0 + 1) \<le>
          length xs - nat (max (p - 1) 0)"
    using assms by arith
  then show ?thesis
    by (simp only: length_take length_drop min_absorb2)
qed

lemma renderPhotoViews_length:
  assumes "0 \<le> photoIndex s" and "photoIndex s \<le> int (length (images props)) - 1"
  shows "length (renderPhotoViews w v props s) =
           nat (min (photoIndex s + 1) (int (length (images props)) - 1) -
                max (photoIndex s - 1) 0 + 1)"
  unfolding renderPhotoViews_def Let_def js_slice_window [OF assms]
  by (simp only: length_map length_zip length_upt length_window [OF assms]) simp

lemma renderPhotoViews_nth:
  assumes "0 \<le> photoIndex s" and "photoIndex s \<le> int (length (images props)) - 1"
    and "k < length (renderPhotoViews w v props s)"
  shows "renderPhotoViews w v props s ! k =
           renderPhotoView w v s (k, images props ! (nat (max (photoIndex s - 1) 0) + k))"
proof -
  let ?lo = "max (photoIndex s - 1) 0"
  let ?hi = "min (photoIndex s + 1) (int (length (images props)) - 1)"
  let ?sl = "take (nat (?hi - ?lo + 1)) (drop (nat ?lo) (images props))"
  have len: "length ?sl = nat (?hi - ?lo + 1)"
    using assms(1,2) by (rule length_window)
  have k: "k < nat (?hi - ?lo + 1)"
    using assms renderPhotoViews_length [OF assms(1,2), of w v] by simp
  have "renderPhotoViews w v props s = map (renderPhotoView w v s) (zip [0..<length ?sl] ?sl)"
    unfolding renderPhotoViews_def Let_def js_slice_window [OF assms(1,2)] ..
  then have "renderPhotoViews w v props s ! k = renderPhotoView w v s (k, ?sl ! k)"
    using k len by (simp del: length_take length_drop take_all_iff)
  moreover have "?sl ! k = images props ! (nat ?lo + k)"
    using k assms(1,2) by (simp add: min_def max_def split: if_splits)
  ultimately show ?thesis by simp
qed

lemma realIndex_renderPhotoView:
  "0 \<le> photoIndex s \<Longrightarrow>
   realIndex (renderPhotoView w v s (k, x)) = max (photoIndex s - 1) 0 + int k"
  by (simp add: renderPhotoView_def Let_def max_def)

lemma isActive_renderPhotoView:
  "isActive (renderPhotoView w v s q) \<longleftrightarrow> realIndex (renderPhotoView w v s q) = photoIndex s"
  by (auto simp: renderPhotoView_def Let_def)

lemma item_renderPhotoView: "item (renderPhotoView w v s (k, x)) = x"
  by (simp add: renderPhotoView_def Let_def)

text \<open>
  Claim C9. For \<^verbatim>\<open>0 <= photoIndex <= images.length - 1\<close>, \<^verbatim>\<open>render\<close> produces one
  \<^verbatim>\<open>PhotoView\<close> for each position from \<^verbatim>\<open>max(photoIndex - 1, 0)\<close> to
  \<^verbatim>\<open>min(photoIndex + 1, images.length - 1)\<close>, in order and at most three: the \<open>k\<close>-th one
  has \<^verbatim>\<open>realIndex\<close> equal to the lower bound plus \<open>k\<close> and shows the image at that
  position of \<^verbatim>\<open>images\<close>, it is active exactly when its \<^verbatim>\<open>realIndex\<close> is \<^verbatim>\<open>photoIndex\<close>, and
  exactly one of them is active. With no images, \<^verbatim>\<open>currentImage\<close> is undefined.
\<close>

theorem render_adjacent_window:
  "(0 \<le> photoIndex s \<and> photoIndex s \<le> int (length (images props)) - 1 \<longrightarrow>
      (let p = photoIndex s;
           lo = max (p - 1) 0;
           hi = min (p + 1) (int (length (images props)) - 1);
           vs = renderPhotoViews w v props s
       in int (length vs) = hi - lo + 1 \<and> length vs \<le> 3 \<and>
          (\<forall>k < length vs.
             realIndex (vs ! k) = lo + int k \<and>
             item (vs ! k) = images props ! nat (realIndex (vs ! k)) \<and>
             (isActive (vs ! k) \<longleftrightarrow> realIndex (vs ! k) = p)) \<and>
          (\<exists>!k. k < length vs \<and> isActive (vs ! k)))) \<and>
   (images props = [] \<longrightarrow> currentImage props s = None)"
proof (intro conjI impI)
  assume b: "0 \<le> photoIndex s \<and> photoIndex s \<le> int (length (images props)) - 1"
  then have b1: "0 \<le> photoIndex s" and b2: "photoIndex s \<le> int (length (images props)) - 1"
    by simp_all
  let ?p = "photoIndex s"
  let ?lo = "max (?p - 1) 0"
  let ?hi = "min (?p + 1) (int (length (images props)) - 1)"
  let ?vs = "renderPhotoViews w v props s"
  have len: "length ?vs = nat (?hi - ?lo + 1)"
    using b1 b2 by (rule renderPhotoViews_length)
  have len_int: "int (length ?vs) = ?hi - ?lo + 1"
    using len b1 b2 by (simp add: min_def max_def)
  have le3: "length ?vs \<le> 3"
    using len b1 b2 by arith
  have nth: "realIndex (?vs ! k) = ?lo + int k \<and>
             item (?vs ! k) = images props ! nat (realIndex (?vs ! k)) \<and>
             (isActive (?vs ! k) \<longleftrightarrow> realIndex (?vs ! k) = ?p)" if "k < length ?vs" for k
  proof -
    have eq: "?vs ! k = renderPhotoView w v s (k, images props ! (nat ?lo + k))"
      using b1 b2 that by (rule renderPhotoViews_nth)
    have ri: "realIndex (?vs ! k) = ?lo + int k"
      using b1 by (simp add: eq realIndex_renderPhotoView)
    have "nat (?lo + int k) = nat ?lo + k"
      by (simp add: max_def nat_add_distrib)
    then have "item (?vs ! k) = images props ! nat (realIndex (?vs ! k))"
      by (simp add: ri) (simp add: eq item_renderPhotoView)
    moreover have "isActive (?vs ! k) \<longleftrightarrow> realIndex (?vs ! k) = ?p"
      unfolding eq by (rule isActive_renderPhotoView)
    ultimately show ?thesis using ri by simp
  qed
  have act: "isActive (?vs ! k) \<longleftrightarrow> k = nat (?p - ?lo)" if "k < length ?vs" for k
    using nth [OF that] b1 by (auto simp: max_def)
  have "nat (?p - ?lo) < length ?vs"
    using len b1 b2 by arith
  then have ex1: "\<exists>!k. k < length ?vs \<and> isActive (?vs ! k)"
    using act by auto
  show "let p = photoIndex s;
           lo = max (p - 1) 0;
           hi = min (p + 1) (int (length (images props)) - 1);
           vs = renderPhotoViews w v props s
       in int (length vs) = hi - lo + 1 \<and> length vs \<le> 3 \<and>
          (\<forall>k < length vs.
             realIndex (vs ! k) = lo + int k \<and>
             item (vs ! k) = images props ! nat (realIndex (vs ! k)) \<and>
             (isActive (vs ! k) \<longleftrightarrow> realIndex (vs ! k) = p)) \<and>
          (\<exists>!k. k < length vs \<and> isActive (vs ! k))"
    unfolding Let_def using len_int le3 nth ex1 by blast
next
  assume "images props = []"
  then show "currentImage props s = None"
    by (simp add: currentImage_def)
qed

theorem render_adjacent_window_witness:
  "0 \<le> photoIndex (sampleState\<lparr>photoIndex := 2\<rparr>) \<and>
   photoIndex (sampleState\<lparr>photoIndex := 2\<rparr>) \<le> int (length (images sampleProps)) - 1 \<and>
   length (renderPhotoViews sampleWindow sampleVariables sampleProps
             (sampleState\<lparr>photoIndex := 2\<rparr>)) = 2 \<and>
   map realIndex (renderPhotoViews sampleWindow sampleVariables sampleProps
                    (sampleState\<lparr>photoIndex := 2\<rparr>)) = [1, 2] \<and>
   map item (renderPhotoViews sampleWindow sampleVariables sampleProps
               (sampleState\<lparr>photoIndex := 2\<rparr>)) = [''b.jpg'', ''c.jpg''] \<and>
   map isActive (renderPhotoViews sampleWindow sampleVariables sampleProps
                   (sampleState\<lparr>photoIndex := 2\<rparr>)) = [False, True] \<and>
   images (sampleProps\<lparr>images := []\<rparr>) = [] \<and>
   currentImage (sampleProps\<lparr>images := []\<rparr>) sampleState = None"
proof -
  let ?s = "sampleState\<lparr>photoIndex := 2\<rparr>"
  let ?vs = "renderPhotoViews sampleWindow sampleVariables sampleProps ?s"
  let ?E = "sampleProps\<lparr>images := []\<rparr>"
  have h: "0 \<le> photoIndex ?s \<and> photoIndex ?s \<le> int (length (images sampleProps)) - 1"
    by (simp add: sample_defs)
  have e: "images ?E = []" by simp
  have c: "photoIndex ?s = 2" "int (length (images sampleProps)) = 3"
    "images sampleProps = [''a.jpg'', ''b.jpg'', ''c.jpg'']"
    by (simp_all add: sample_defs)
  note A = render_adjacent_window
             [where s = ?s and props = sampleProps and w = sampleWindow and v = sampleVariables,
              THEN conjunct1, rule_format, OF h, unfolded Let_def]
  have len: "length ?vs = 2"
    using A [THEN conjunct1] c by simp
  have k0: "realIndex (?vs ! 0) = 1 \<and> item (?vs ! 0) = ''b.jpg'' \<and> \<not> isActive (?vs ! 0)"
    using A [THEN conjunct2, THEN conjunct2, THEN conjunct1, rule_format, of 0] len c by simp
  have k1: "realIndex (?vs ! 1) = 2 \<and> item (?vs ! 1) = ''c.jpg'' \<and> isActive (?vs ! 1)"
    using A [THEN conjunct2, THEN conjunct2, THEN conjunct1, rule_format, of 1] len c by simp
  have vs: "?vs = [?vs ! 0, ?vs ! 1]"
    using len by (auto simp: list_eq_iff_nth_eq less_Suc_eq numeral_2_eq_2)
  have m1: "map realIndex ?vs = [1, 2]"
    using arg_cong [OF vs, of "map realIndex"] k0 k1 by simp
  have m2: "map item ?vs = [''b.jpg'', ''c.jpg'']"
    using arg_cong [OF vs, of "map item"] k0 k1 by simp
  have m3: "map isActive ?vs = [False, True]"
    using arg_cong [OF vs, of "map isActive"] k0 k1 by simp
  have "currentImage ?E sampleState = None"
    using render_adjacent_window [where props = ?E and s = sampleState, THEN conjunct2] e
    by simp
  then show ?thesis using h len m1 m2 m3 e by blast
qed

end
